theory Spec2Isabelle
  imports Main "HOL-Library.AList"
begin

section \<open>The document tree (hast)\<close>

text \<open>
  A property value of an element: \<open>boolean | number | string | null | undefined\<close> or
  an array of those. A number is kept as its image under \<open>ToString\<close> (\<open>'-1'\<close>,
  \<open>'0.5'\<close>, \<open>'1e+21'\<close>, \<open>'NaN'\<close>, \<open>'Infinity'\<close>): the program does two things with
  a number, it tests its truthiness and it concatenates it to \<open>'#'\<close>, and both are read
  off that image. \<open>+0\<close> and \<open>-0\<close> both have the image \<open>'0'\<close>.
\<close>

datatype pval = PUndef | PNull | PBool bool | PNum string | PStr string | PArr "pval list"

text \<open>
  A property object. The keys of a JS object are ordered and unique; an association
  list keeps the order, and \<open>AList.update\<close> overwrites in place or appends, as an
  assignment to an own property does.
\<close>

type_synonym properties = "(string \<times> pval) list"

text \<open>
  A node of the tree. \<open>Absent\<close> stands for the JS value \<open>undefined\<close> in a place
  where a node is expected: a generator may return it although its declared type
  excludes it, and \<open>around\<close> tests for it.
\<close>

datatype node =
    Root "node list"
  | Element string properties "node list"
  | Text string
  | Comment string
  | Doctype
  | Absent

text \<open>\<open>node.children\<close>, for the node kinds that have children.\<close>

fun children_of :: "node \<Rightarrow> node list" where
  "children_of (Root cs) = cs"
| "children_of (Element name ps cs) = cs"
| "children_of other = []"

text \<open>\<open>'children' in node\<close>.\<close>

fun has_children :: "node \<Rightarrow> bool" where
  "has_children (Root cs) = True"
| "has_children (Element name ps cs) = True"
| "has_children other = False"

text \<open>\<open>node.children = cs\<close>.\<close>

fun set_children :: "node \<Rightarrow> node list \<Rightarrow> node" where
  "set_children (Root old) cs = Root cs"
| "set_children (Element name ps old) cs = Element name ps cs"
| "set_children other cs = other"

text \<open>\<open>node.properties\<close> of an element.\<close>

fun properties_of :: "node \<Rightarrow> properties" where
  "properties_of (Element name ps cs) = ps"
| "properties_of other = []"

text \<open>\<open>object[key]\<close>: a missing key reads as \<open>undefined\<close>.\<close>

definition property :: "properties \<Rightarrow> string \<Rightarrow> pval" where
  "property ps key = (case map_of ps key of None \<Rightarrow> PUndef | Some v \<Rightarrow> v)"

section \<open>JavaScript coercions\<close>

text \<open>
  Truthiness of a property value, as \<open>&&\<close> tests it: of the numbers, zero and
  \<open>NaN\<close> are falsy.
\<close>

fun truthy :: "pval \<Rightarrow> bool" where
  "truthy PUndef = False"
| "truthy PNull = False"
| "truthy (PBool b) = b"
| "truthy (PNum shown) = (shown \<noteq> ''0'' \<and> shown \<noteq> ''NaN'')"
| "truthy (PStr s) = (s \<noteq> [])"
| "truthy (PArr vs) = True"

text \<open>\<open>Array.prototype.join\<close> with a comma.\<close>

fun join_comma :: "string list \<Rightarrow> string" where
  "join_comma [] = []"
| "join_comma [s] = s"
| "join_comma (s # t # rest) = s @ '','' @ join_comma (t # rest)"

text \<open>
  \<open>ToString\<close>, which \<open>'#' + value\<close> applies to the right operand. An array is
  joined with commas, its \<open>null\<close> and \<open>undefined\<close> elements giving the empty string.
\<close>

fun toString :: "pval \<Rightarrow> string" where
  "toString PUndef = ''undefined''"
| "toString PNull = ''null''"
| "toString (PBool b) = (if b then ''true'' else ''false'')"
| "toString (PNum shown) = shown"
| "toString (PStr s) = s"
| "toString (PArr vs) =
     join_comma (map (\<lambda>v. if v = PUndef \<or> v = PNull then [] else toString v) vs)"

section \<open>Collaborators\<close>

text \<open>
  Modelled from the spec: the heading-rank utility (\<open>hast-util-heading-rank\<close>, an
  external package). Given a node, it returns the heading level 1 to 6 of an element
  named \<open>h1\<close> to \<open>h6\<close> (the name is lower-cased first), and nothing otherwise.
\<close>

fun headingRank :: "node \<Rightarrow> nat option" where
  "headingRank (Element name ps cs) =
     (case name of
        [h, d] \<Rightarrow>
          (if h = CHR ''h'' \<or> h = CHR ''H''
           then map_of [(CHR ''1'', 1), (CHR ''2'', 2), (CHR ''3'', 3),
                        (CHR ''4'', 4), (CHR ''5'', 5), (CHR ''6'', 6)] d
           else None)
      | _ \<Rightarrow> None)"
| "headingRank other = None"

text \<open>
  Modelled from the spec: the element-test utility (\<open>hast-util-is-element\<close>, an
  external package) compiles the user's test into one predicate over the node, its
  index and its parent. The compiled predicate is what the model keeps; no test
  accepts every element.
\<close>

type_synonym test = "node \<Rightarrow> nat option \<Rightarrow> node option \<Rightarrow> bool"

definition convertElement :: "test option \<Rightarrow> test" where
  "convertElement t = (case t of None \<Rightarrow> (\<lambda>node index parent. True) | Some f \<Rightarrow> f)"

text \<open>
  Modelled from the spec: the deep-clone utility (\<open>structuredClone\<close>, an external
  package) returns a structurally equal value that shares nothing with its argument.
  The values of this part of the model carry no identity, so the copy of a value is
  that value; sharing is the subject of the store model further down.
\<close>

definition clone :: "'a \<Rightarrow> 'a" where
  "clone thing = thing"

section \<open>Configuration\<close>

text \<open>What a content or grouping template yields: one node or an array of nodes.\<close>

datatype fragment = One node | Many "node list"

text \<open>A content or grouping template: static data, or a generator called with the heading.\<close>

datatype template = Static fragment | Build "node \<Rightarrow> fragment"

text \<open>A properties template: a static property object, or a generator.\<close>

datatype props_template = StaticProps properties | BuildProperties "node \<Rightarrow> properties"

text \<open>
  \<open>Options\<close>. Every field may be missing (\<open>null\<close> or \<open>undefined\<close>); an object, an
  array and a function are always truthy, so \<open>None\<close> is the only falsy template.
\<close>

record options =
  opt_behavior :: "string option"
  opt_content :: "template option"
  opt_group :: "template option"
  opt_properties :: "props_template option"
  opt_test :: "test option"

definition contentDefaults :: node where
  "contentDefaults =
     Element ''span'' [(''className'', PArr [PStr ''icon'', PStr ''icon-link''])] []"

definition emptyOptions :: options where
  "emptyOptions =
     \<lparr>opt_behavior = None, opt_content = None, opt_group = None,
      opt_properties = None, opt_test = None\<rparr>"

text \<open>The four visitor functions that the variable \<open>method\<close> can be bound to.\<close>

datatype strategy = Inject | Around | Wrap | Substitute

text \<open>The variables the returned transform closes over.\<close>

record closure =
  props :: "props_template option"
  behavior :: string
  content :: template
  group :: "template option"
  is_test :: test
  method_of :: strategy

text \<open>
  The body of \<open>rehypeAutolinkHeadings\<close> up to the \<open>return\<close>: defaults, then the
  \<open>switch\<close> over \<open>behavior\<close>. The empty string is falsy, so it gives \<open>'prepend'\<close>.
\<close>

definition rehypeAutolinkHeadings :: "options option \<Rightarrow> closure" where
  "rehypeAutolinkHeadings opts =
     (let settings = (case opts of None \<Rightarrow> emptyOptions | Some given \<Rightarrow> given);
          props0 = opt_properties settings;
          behavior0 = (case opt_behavior settings of
                         None \<Rightarrow> ''prepend''
                       | Some b \<Rightarrow> if b = [] then ''prepend'' else b);
          content0 = (case opt_content settings of
                        None \<Rightarrow> Static (One contentDefaults)
                      | Some c \<Rightarrow> c);
          group0 = opt_group settings;
          is0 = convertElement (opt_test settings)
      in if behavior0 = ''after'' \<or> behavior0 = ''before'' then
           \<lparr>props = props0, behavior = behavior0, content = content0, group = group0,
            is_test = is0, method_of = Around\<rparr>
         else if behavior0 = ''wrap'' then
           \<lparr>props = props0, behavior = behavior0, content = content0, group = group0,
            is_test = is0, method_of = Wrap\<rparr>
         else if behavior0 = ''substitute'' then
           \<lparr>props = (case props0 of
                       None \<Rightarrow> Some (StaticProps [(''tabIndex'', PNum ''-1'')])
                     | Some p \<Rightarrow> Some p),
            behavior = behavior0, content = content0, group = group0,
            is_test = is0, method_of = Substitute\<rparr>
         else
           \<lparr>props = (case props0 of
                       None \<Rightarrow> Some (StaticProps [(''ariaHidden'', PStr ''true''),
                                                  (''tabIndex'', PNum ''-1'')])
                     | Some p \<Rightarrow> Some p),
            behavior = behavior0, content = content0, group = group0,
            is_test = is0, method_of = Inject\<rparr>)"

section \<open>Materializing templates and building the link\<close>

text \<open>\<open>create\<close>: the spread of \<open>props\<close>, then \<open>href\<close> assigned last.\<close>

definition create :: "node \<Rightarrow> properties \<Rightarrow> node list \<Rightarrow> node" where
  "create node ps children =
     Element ''a''
       (AList.update ''href'' (PStr (''#'' @ toString (property (properties_of node) ''id''))) ps)
       children"

fun toNode :: "template \<Rightarrow> node \<Rightarrow> fragment" where
  "toNode (Build f) node = f node"
| "toNode (Static v) node = clone v"

definition toChildren :: "template \<Rightarrow> node \<Rightarrow> node list" where
  "toChildren v node = (case toNode v node of Many ns \<Rightarrow> ns | One n \<Rightarrow> [n])"

fun toProperties :: "props_template option \<Rightarrow> node \<Rightarrow> properties" where
  "toProperties (Some (BuildProperties f)) node = f node"
| "toProperties (Some (StaticProps v)) node = clone v"
| "toProperties None node = []"

section \<open>Placement strategies\<close>

text \<open>
  What a visitor did and told the traversal. Every strategy that changes the tree
  answers \<open>SKIP\<close>, so an answer is either \<open>undefined\<close> with nothing touched
  (\<open>Pass\<close>), or \<open>[SKIP]\<close> / \<open>[SKIP, n]\<close> together with the mutation performed:
  the visited node after its in-place change, or the parent's child array after the
  splice.
\<close>

datatype mutation = Node node | Siblings "node list"

datatype answer = Pass | Skip mutation "nat option"

text \<open>\<open>array.splice(start, deleteCount, ...items)\<close> for a start within the array.\<close>

definition splice :: "nat \<Rightarrow> nat \<Rightarrow> 'a list \<Rightarrow> 'a list \<Rightarrow> 'a list" where
  "splice start deleteCount items xs = take start xs @ items @ drop (start + deleteCount) xs"

definition inject :: "closure \<Rightarrow> node \<Rightarrow> answer" where
  "inject c node =
     (let children = toChildren (content c) node;
          link = create node (toProperties (props c) node) children
      in Skip (Node (set_children node
                      (if behavior c = ''prepend'' then link # children_of node
                       else children_of node @ [link])))
              None)"

fun around :: "closure \<Rightarrow> node \<Rightarrow> nat option \<Rightarrow> node option \<Rightarrow> answer" where
  "around c node (Some index) (Some parent) =
     (let children = toChildren (content c) node;
          link = create node (toProperties (props c) node) children;
          nodes = (if behavior c = ''before'' then [link, node] else [node, link]);
          nodes' = (case group c of
                      None \<Rightarrow> nodes
                    | Some g \<Rightarrow>
                        (case toNode g node of
                           One (Element name ps old) \<Rightarrow> [Element name ps nodes]
                         | _ \<Rightarrow> nodes))
      in Skip (Siblings (splice index 1 nodes' (children_of parent)))
              (Some (index + length nodes')))"
| "around c node index parent = Pass"

definition wrap :: "closure \<Rightarrow> node \<Rightarrow> answer" where
  "wrap c node =
     Skip (Node (set_children node
                  [create node (toProperties (props c) node) (children_of node)]))
          None"

definition substitute :: "closure \<Rightarrow> node \<Rightarrow> answer" where
  "substitute c node =
     (let children = toChildren (content c) node
      in Skip (Node (set_children node
                      [create node (toProperties (props c) node) children]))
              None)"

text \<open>Calling \<open>method(node, index, parent)\<close>.\<close>

fun call :: "strategy \<Rightarrow> closure \<Rightarrow> node \<Rightarrow> nat option \<Rightarrow> node option \<Rightarrow> answer" where
  "call Inject c node index parent = inject c node"
| "call Around c node index parent = around c node index parent"
| "call Wrap c node index parent = wrap c node"
| "call Substitute c node index parent = substitute c node"

text \<open>The visitor handed to \<open>visit\<close>.\<close>

definition visitor :: "closure \<Rightarrow> node \<Rightarrow> nat option \<Rightarrow> node option \<Rightarrow> answer" where
  "visitor c node index parent =
     (if headingRank node \<noteq> None \<and> truthy (property (properties_of node) ''id'')
         \<and> is_test c node index parent
      then call (method_of c) c node index parent
      else Pass)"

section \<open>The traversal\<close>

text \<open>\<open>node.type === 'element'\<close>, the test that \<open>visit\<close> is called with.\<close>

fun element_type :: "node \<Rightarrow> bool" where
  "element_type (Element name ps cs) = True"
| "element_type other = False"

text \<open>
  The mutation a visitor reports, carried out where the traversal holds the node: a
  node changed in place is still the child at \<open>offset\<close>; a splice has already
  produced the parent's new child array.
\<close>

fun commit :: "mutation \<Rightarrow> node \<Rightarrow> nat \<Rightarrow> node" where
  "commit (Node node') parent offset =
     set_children parent ((children_of parent)[offset := node'])"
| "commit (Siblings cs) parent offset = set_children parent cs"

text \<open>
  Modelled from the spec: the traversal utility (\<open>unist-util-visit\<close>, an external
  package): a depth-first visitor in document order, called with a node-type test,
  that hands \<open>(node, index, parent)\<close> to the callback; the callback may answer "do
  not descend into this node's children", combined with "resume at sibling index n".

  \<open>visit_node\<close> is one call for one node: the visitor runs if the node passes the
  type test; unless it answered \<open>SKIP\<close>, the children are walked. \<open>visit_children\<close>
  is the \<open>while\<close> loop over \<open>parent.children\<close>: it reads the child at \<open>offset\<close>
  from the array as it is now, and continues at the index the child's visit reported,
  or at \<open>offset + 1\<close>. A visitor may answer with an index that does not advance, so
  the loop is not bound to end: the functions take fuel, and \<open>None\<close> means that it
  ran out.
\<close>

fun visit_node ::
    "nat \<Rightarrow> (node \<Rightarrow> nat option \<Rightarrow> node option \<Rightarrow> answer) \<Rightarrow>
     node \<Rightarrow> nat option \<Rightarrow> node option \<Rightarrow> (mutation \<times> nat option) option"
  and visit_children ::
    "nat \<Rightarrow> (node \<Rightarrow> nat option \<Rightarrow> node option \<Rightarrow> answer) \<Rightarrow>
     node \<Rightarrow> nat \<Rightarrow> node option"
where
  "visit_node 0 v node index parent = None"
| "visit_node (Suc fuel) v node index parent =
     (case (if element_type node then v node index parent else Pass) of
        Skip m next \<Rightarrow> Some (m, next)
      | Pass \<Rightarrow>
          (if has_children node then
             (case visit_children fuel v node 0 of
                None \<Rightarrow> None
              | Some node' \<Rightarrow> Some (Node node', None))
           else Some (Node node, None)))"
| "visit_children 0 v parent offset = None"
| "visit_children (Suc fuel) v parent offset =
     (if offset < length (children_of parent) then
        (case visit_node fuel v (children_of parent ! offset) (Some offset) (Some parent) of
           None \<Rightarrow> None
         | Some (m, next) \<Rightarrow>
             visit_children fuel v (commit m parent offset)
               (case next of Some n \<Rightarrow> n | None \<Rightarrow> offset + 1))
      else Some parent)"

text \<open>
  \<open>visit(tree, 'element', visitor)\<close>: the tree itself has no index and no parent, so
  there is no sibling array that a splice could have changed.
\<close>

definition visit ::
    "nat \<Rightarrow> (node \<Rightarrow> nat option \<Rightarrow> node option \<Rightarrow> answer) \<Rightarrow> node \<Rightarrow> node option" where
  "visit fuel v tree =
     (case visit_node fuel v tree None None of
        None \<Rightarrow> None
      | Some (Node tree', next) \<Rightarrow> Some tree'
      | Some (Siblings cs, next) \<Rightarrow> Some tree)"

text \<open>The transform that \<open>rehypeAutolinkHeadings(options)\<close> returns, run on a tree.\<close>

definition transform :: "nat \<Rightarrow> options option \<Rightarrow> node \<Rightarrow> node option" where
  "transform fuel opts tree = visit fuel (visitor (rehypeAutolinkHeadings opts)) tree"

section \<open>The pass as a structural recursion\<close>

text \<open>
  A second description of the pass, for comparison with the traversal above: a
  recursion over the tree as it was before the pass, with no offsets and no fuel.
\<close>

text \<open>The condition under which the visitor calls the strategy.\<close>

definition qualifies :: "closure \<Rightarrow> node \<Rightarrow> nat option \<Rightarrow> node option \<Rightarrow> bool" where
  "qualifies c node index parent =
     (element_type node \<and> headingRank node \<noteq> None
      \<and> truthy (property (properties_of node) ''id'') \<and> is_test c node index parent)"

text \<open>The link and the heading as siblings, in the order of \<open>before\<close> or \<open>after\<close>.\<close>

definition pair :: "closure \<Rightarrow> node \<Rightarrow> node list" where
  "pair c heading =
     (let link = create heading (toProperties (props c) heading) (toChildren (content c) heading)
      in if behavior c = ''before'' then [link, heading] else [heading, link])"

text \<open>
  The nodes that \<open>before\<close> and \<open>after\<close> splice in for the heading: the pair, or
  the grouping element around it.
\<close>

definition spliced :: "closure \<Rightarrow> node \<Rightarrow> node list" where
  "spliced c heading =
     (case group c of
        None \<Rightarrow> pair c heading
      | Some g \<Rightarrow>
          (case toNode g heading of
             One (Element name ps old) \<Rightarrow> [Element name ps (pair c heading)]
           | _ \<Rightarrow> pair c heading))"

text \<open>
  What stands in the place of a qualifying heading after its strategy has run: the
  heading with its new children, or the nodes spliced in for it.
\<close>

definition replacement :: "closure \<Rightarrow> node \<Rightarrow> node list" where
  "replacement c heading =
     (let link = create heading (toProperties (props c) heading) (toChildren (content c) heading)
      in case method_of c of
           Inject \<Rightarrow>
             [set_children heading
                (if behavior c = ''prepend'' then link # children_of heading
                 else children_of heading @ [link])]
         | Wrap \<Rightarrow>
             [set_children heading
                [create heading (toProperties (props c) heading) (children_of heading)]]
         | Substitute \<Rightarrow> [set_children heading [link]]
         | Around \<Rightarrow> spliced c heading)"

text \<open>The fuel that a visit of a node needs, and a walk over a child array.\<close>

fun weight :: "node \<Rightarrow> nat" where
  "weight (Root cs) = Suc (Suc (sum_list (map (\<lambda>n. Suc (weight n)) cs)))"
| "weight (Element name ps cs) = Suc (Suc (sum_list (map (\<lambda>n. Suc (weight n)) cs)))"
| "weight other = 1"

definition list_weight :: "node list \<Rightarrow> nat" where
  "list_weight cs = sum_list (map (\<lambda>n. Suc (weight n)) cs)"

text \<open>
  \<open>rewrite\<close> is the pass on a node that the visitor let pass: its children are
  rewritten. \<open>rewrite_list\<close> goes through the original children \<open>todo\<close> once, from
  left to right, with \<open>seen\<close> what already stands before them: a qualifying child is
  replaced by its \<open>replacement\<close>, taken as it is (neither the generated nodes nor the
  heading's own children are looked at again); any other child is rewritten.
\<close>

function (sequential) rewrite :: "closure \<Rightarrow> node \<Rightarrow> node"
  and rewrite_list :: "closure \<Rightarrow> node \<Rightarrow> node list \<Rightarrow> node list \<Rightarrow> node list"
where
  "rewrite c (Root cs) = Root (rewrite_list c (Root cs) [] cs)"
| "rewrite c (Element name ps cs) = Element name ps (rewrite_list c (Element name ps cs) [] cs)"
| "rewrite c other = other"
| "rewrite_list c parent seen [] = seen"
| "rewrite_list c parent seen (n # rest) =
     (if qualifies c n (Some (length seen)) (Some (set_children parent (seen @ n # rest)))
      then rewrite_list c parent (seen @ replacement c n) rest
      else rewrite_list c parent (seen @ [rewrite c n]) rest)"
  by pat_completeness auto
termination
  by (relation "measure (\<lambda>x. case x of Inl (c, node) \<Rightarrow> weight node
                                     | Inr (c, parent, seen, todo) \<Rightarrow> list_weight todo)")
     (simp_all add: list_weight_def)

text \<open>
  The whole pass. The tree itself has no parent: \<open>around\<close> lets it pass, the other
  strategies change it in place.
\<close>

definition expected :: "closure \<Rightarrow> node \<Rightarrow> node" where
  "expected c tree =
     (if qualifies c tree None None \<and> method_of c \<noteq> Around then hd (replacement c tree)
      else rewrite c tree)"

text \<open>
  A node is a candidate when it is a heading with a truthy \<open>id\<close>; a tree is inert when
  no element in it is a candidate.
\<close>

definition candidate :: "node \<Rightarrow> bool" where
  "candidate node =
     (headingRank node \<noteq> None \<and> truthy (property (properties_of node) ''id''))"

fun inert :: "node \<Rightarrow> bool" where
  "inert (Root cs) = list_all inert cs"
| "inert (Element name ps cs) = (\<not> candidate (Element name ps cs) \<and> list_all inert cs)"
| "inert other = True"

section \<open>The store: objects with identity\<close>

text \<open>
  Whether two places of the tree hold the same object cannot be said of the values
  above. For the questions of sharing, every object of the program (a node, a property
  object, an array) carries the address it was allocated at. A tree of such objects is
  a view of the store; an object that is shared shows as one address in two places.
  Allocation is explicit: a function that creates objects takes the next free address
  and returns the one after its last allocation.
\<close>

type_synonym ref = nat

text \<open>A property value: a scalar, or an array (of strings and numbers) with its address.\<close>

datatype lval = Scalar pval | Array ref "pval list"

text \<open>A property object: its address and its entries.\<close>

datatype lprops = Props ref "(string \<times> lval) list"

text \<open>
  A content node. An element has its own address, its property object, and the
  address of its \<open>children\<close> array next to the children.
\<close>

datatype lnode =
    LElement ref string lprops ref "lnode list"
  | LText ref string
  | LComment ref string

text \<open>One node, or an array of nodes with the array's address.\<close>

datatype lfragment = LOne lnode | LMany ref "lnode list"

text \<open>Templates: static data held in the store, or a generator that allocates its result.\<close>

datatype ltemplate = LStatic lfragment | LBuild "lnode \<Rightarrow> ref \<Rightarrow> lfragment \<times> ref"

datatype lprops_template =
    LStaticProps lprops
  | LBuildProperties "lnode \<Rightarrow> ref \<Rightarrow> lprops \<times> ref"




























text \<open>All addresses of a list lie in \<open>[lo, hi)\<close>.\<close>

definition within :: "ref \<Rightarrow> ref \<Rightarrow> ref list \<Rightarrow> bool" where
  "within lo hi rs = list_all (\<lambda>r. lo \<le> r \<and> r < hi) rs"




text \<open>
  The strategies in the store. The closure holds the templates as they are stored;
  the test plays no part in what a strategy allocates.
\<close>

record lclosure =
  lprops :: "lprops_template option"
  lbehavior :: string
  lcontent :: ltemplate
  lgroup :: "ltemplate option"
  lmethod :: strategy

























section \<open>An example document\<close>

definition intro_heading :: node where
  "intro_heading = Element ''h2'' [(''id'', PStr ''intro'')] [Text ''Intro'']"







section \<open>Basic facts\<close>

lemma list_weight_simps [simp]:
  "list_weight [] = 0"
  "list_weight (n # ns) = Suc (weight n + list_weight ns)"
  by (simp_all add: list_weight_def)

lemma weight_parent:
  "has_children node \<Longrightarrow> weight node = Suc (Suc (list_weight (children_of node)))"
  by (cases node) (simp_all add: list_weight_def)

lemma weight_positive: "0 < weight node"
  by (cases node) simp_all

lemma rewrite_children:
  "rewrite c node = set_children node (rewrite_list c node [] (children_of node))"
  by (cases node) simp_all

lemma set_children_twice [simp]: "set_children (set_children node xs) ys = set_children node ys"
  by (cases node) simp_all

lemma has_children_set [simp]: "has_children (set_children node xs) = has_children node"
  by (cases node) simp_all

lemma children_of_set [simp]: "has_children node \<Longrightarrow> children_of (set_children node xs) = xs"
  by (cases node) simp_all

lemma set_children_same [simp]: "set_children node (children_of node) = node"
  by (cases node) simp_all

lemma set_children_leaf [simp]: "\<not> has_children node \<Longrightarrow> set_children node xs = node"
  by (cases node) simp_all

lemma splice_middle [simp]: "splice (length xs) (Suc 0) ns (xs @ y # ys) = xs @ ns @ ys"
  by (simp add: splice_def)

section \<open>The strategies against their replacements\<close>

lemma replacement_single:
  "method_of c \<noteq> Around \<Longrightarrow> replacement c h = [hd (replacement c h)]"
  by (cases "method_of c") (simp_all add: replacement_def Let_def)

lemma around_spliced:
  "around c h (Some i) (Some p) =
     Skip (Siblings (splice i 1 (spliced c h) (children_of p)))
          (Some (i + length (spliced c h)))"
  by (simp add: spliced_def pair_def Let_def
           split: option.splits fragment.splits node.splits)

lemma around_replacement:
  "method_of c = Around \<Longrightarrow>
   around c h (Some i) (Some p) =
     Skip (Siblings (splice i 1 (replacement c h) (children_of p)))
          (Some (i + length (replacement c h)))"
  by (simp add: around_spliced replacement_def del: around.simps)

lemma call_replacement:
  "method_of c \<noteq> Around \<Longrightarrow>
   call (method_of c) c h index parent = Skip (Node (hd (replacement c h))) None"
  by (cases "method_of c")
     (simp_all add: replacement_def inject_def wrap_def substitute_def Let_def)

lemma visitor_qualifies:
  "qualifies c h index parent \<Longrightarrow> visitor c h index parent = call (method_of c) c h index parent"
  by (simp add: qualifies_def visitor_def)

lemma visitor_not_qualifies:
  "\<not> qualifies c h index parent \<Longrightarrow>
   (if element_type h then visitor c h index parent else Pass) = Pass"
  by (auto simp add: qualifies_def visitor_def)

text \<open>
  One step of the loop at a qualifying child: the visitor answers \<open>SKIP\<close>, the
  committed child array holds the replacement between what was seen and what is left,
  and the loop resumes just behind the replacement.
\<close>

lemma step_qualifies:
  assumes q: "qualifies c h (Some (length seen)) (Some p)"
    and p: "p = set_children parent (seen @ h # rest)" and hc: "has_children parent"
  shows "\<exists>m nxt. visitor c h (Some (length seen)) (Some p) = Skip m nxt
           \<and> commit m p (length seen) = set_children parent (seen @ replacement c h @ rest)
           \<and> (case nxt of Some k \<Rightarrow> k | None \<Rightarrow> length seen + 1)
               = length (seen @ replacement c h)"
proof (cases "method_of c = Around")
  case True
  then show ?thesis
    using q p hc
    by (simp add: visitor_qualifies around_replacement del: around.simps)
next
  case False
  from replacement_single [OF False] obtain x where x: "replacement c h = [x]" by blast
  with False show ?thesis
    using q p hc by (simp add: visitor_qualifies call_replacement)
qed

section \<open>The traversal computes the structural recursion\<close>

lemma visit_refines_aux:
  "(\<forall>fuel index parent. weight node \<le> fuel \<longrightarrow>
       (if element_type node then visitor c node index parent else Pass) = Pass \<longrightarrow>
       visit_node fuel (visitor c) node index parent = Some (Node (rewrite c node), None))"
  "(\<forall>fuel. has_children parent \<longrightarrow> Suc (list_weight todo) \<le> fuel \<longrightarrow>
       visit_children fuel (visitor c) (set_children parent (seen @ todo)) (length seen)
         = Some (set_children parent (rewrite_list c parent seen todo)))"
proof (induction c node and c parent seen todo rule: rewrite_rewrite_list.induct)
  case (1 c cs)
  show ?case
  proof (intro allI impI)
    fix fuel index parent
    assume w: "weight (Root cs) \<le> fuel"
    then obtain f where f: "fuel = Suc f" by (cases fuel) auto
    have "Suc (list_weight cs) \<le> f"
      using w f by (simp add: list_weight_def)
    with 1 have "visit_children f (visitor c) (set_children (Root cs) ([] @ cs))
                   (length ([]::node list))
                 = Some (set_children (Root cs) (rewrite_list c (Root cs) [] cs))"
      by simp
    then show "visit_node fuel (visitor c) (Root cs) index parent
                 = Some (Node (rewrite c (Root cs)), None)"
      using f by simp
  qed
next
  case (2 c name ps cs)
  show ?case
  proof (intro allI impI)
    fix fuel index parent
    let ?node = "Element name ps cs"
    assume w: "weight ?node \<le> fuel"
      and pass: "(if element_type ?node then visitor c ?node index parent else Pass) = Pass"
    then obtain f where f: "fuel = Suc f" by (cases fuel) auto
    have "Suc (list_weight cs) \<le> f"
      using w f by (simp add: list_weight_def)
    with 2 have "visit_children f (visitor c) (set_children ?node ([] @ cs))
                   (length ([]::node list))
                 = Some (set_children ?node (rewrite_list c ?node [] cs))"
      by simp
    then show "visit_node fuel (visitor c) ?node index parent
                 = Some (Node (rewrite c ?node), None)"
      using f pass by simp
  qed
next
  case (4 c parent seen)
  show ?case
  proof (intro allI impI)
    fix fuel
    assume "has_children parent" and "Suc (list_weight []) \<le> fuel"
    then obtain f where "fuel = Suc f" by (cases fuel) auto
    then show "visit_children fuel (visitor c) (set_children parent (seen @ [])) (length seen)
         = Some (set_children parent (rewrite_list c parent seen []))"
      using \<open>has_children parent\<close> by simp
  qed
next
  case (5 c parent seen n rest)
  show ?case
  proof (intro allI impI)
    fix fuel
    assume hc: "has_children parent" and w: "Suc (list_weight (n # rest)) \<le> fuel"
    then obtain f where f: "fuel = Suc f" by (cases fuel) auto
    from w f obtain g where g: "f = Suc g" by (cases f) auto
    let ?p = "set_children parent (seen @ n # rest)"
    have len: "length seen < length (children_of ?p)"
      and nth: "children_of ?p ! length seen = n"
      using hc by simp_all
    show "visit_children fuel (visitor c) (set_children parent (seen @ n # rest)) (length seen)
         = Some (set_children parent (rewrite_list c parent seen (n # rest)))"
    proof (cases "qualifies c n (Some (length seen)) (Some ?p)")
      case True
      from step_qualifies [OF True refl hc] obtain m nxt where
        v: "visitor c n (Some (length seen)) (Some ?p) = Skip m nxt"
        and cm: "commit m ?p (length seen) = set_children parent (seen @ replacement c n @ rest)"
        and nx: "(case nxt of Some k \<Rightarrow> k | None \<Rightarrow> length seen + 1)
                   = length (seen @ replacement c n)"
        by blast
      have el: "element_type n" using True by (simp add: qualifies_def)
      have vn: "visit_node f (visitor c) n (Some (length seen)) (Some ?p) = Some (m, nxt)"
        using v el g by simp
      have "Suc (list_weight rest) \<le> f" using w f by simp
      with 5(1) True hc have
        "visit_children f (visitor c) (set_children parent ((seen @ replacement c n) @ rest))
            (length (seen @ replacement c n))
          = Some (set_children parent (rewrite_list c parent (seen @ replacement c n) rest))"
        by blast
      then show ?thesis
        using True f len nth vn cm nx by simp
    next
      case False
      have pass: "(if element_type n then visitor c n (Some (length seen)) (Some ?p) else Pass)
                    = Pass"
        using False by (rule visitor_not_qualifies)
      have "weight n \<le> f" using w f by simp
      with 5(2) False pass have
        vn: "visit_node f (visitor c) n (Some (length seen)) (Some ?p)
               = Some (Node (rewrite c n), None)"
        by blast
      have cm: "commit (Node (rewrite c n)) ?p (length seen)
                  = set_children parent ((seen @ [rewrite c n]) @ rest)"
        using hc by simp
      have "Suc (list_weight rest) \<le> f" using w f by simp
      with 5(3) False hc have
        "visit_children f (visitor c) (set_children parent ((seen @ [rewrite c n]) @ rest))
            (length (seen @ [rewrite c n]))
          = Some (set_children parent (rewrite_list c parent (seen @ [rewrite c n]) rest))"
        by blast
      then show ?thesis
        using False f len nth vn cm by simp
    qed
  qed
qed (auto simp: Suc_le_eq gr0_conv_Suc)

lemma visit_node_pass:
  "weight node \<le> fuel \<Longrightarrow>
   (if element_type node then visitor c node index parent else Pass) = Pass \<Longrightarrow>
   visit_node fuel (visitor c) node index parent = Some (Node (rewrite c node), None)"
  using visit_refines_aux(1) by blast

lemma visit_children_rewrite:
  "has_children parent \<Longrightarrow> Suc (list_weight todo) \<le> fuel \<Longrightarrow>
   visit_children fuel (visitor c) (set_children parent (seen @ todo)) (length seen)
     = Some (set_children parent (rewrite_list c parent seen todo))"
  using visit_refines_aux(2) by blast

lemma visit_expected:
  assumes "weight tree \<le> fuel"
  shows "visit fuel (visitor c) tree = Some (expected c tree)"
proof (cases "qualifies c tree None None \<and> method_of c \<noteq> Around")
  case True
  from assms weight_positive [of tree] obtain f where f: "fuel = Suc f" by (cases fuel) auto
  from True have el: "element_type tree" by (simp add: qualifies_def)
  show ?thesis
    using True el f
    by (simp add: visit_def expected_def visitor_qualifies call_replacement)
next
  case False
  have "(if element_type tree then visitor c tree None None else Pass) = Pass"
  proof (cases "qualifies c tree None None")
    case True
    with False have "method_of c = Around" by simp
    then show ?thesis using True by (simp add: visitor_qualifies)
  next
    case False
    then show ?thesis by (rule visitor_not_qualifies)
  qed
  from visit_node_pass [OF assms this] show ?thesis
    using False by (auto simp add: visit_def expected_def)
qed

section \<open>What the configuration resolves to\<close>

lemma configured:
  "behavior (rehypeAutolinkHeadings (Some opts))
     = (case opt_behavior opts of
          None \<Rightarrow> ''prepend''
        | Some b \<Rightarrow> if b = [] then ''prepend'' else b)"
  "content (rehypeAutolinkHeadings (Some opts))
     = (case opt_content opts of None \<Rightarrow> Static (One contentDefaults) | Some t \<Rightarrow> t)"
  "group (rehypeAutolinkHeadings (Some opts)) = opt_group opts"
  "is_test (rehypeAutolinkHeadings (Some opts)) = convertElement (opt_test opts)"
  by (simp_all add: rehypeAutolinkHeadings_def Let_def)

lemma configured_substitute:
  "opt_behavior opts = Some ''substitute'' \<Longrightarrow>
   method_of (rehypeAutolinkHeadings (Some opts)) = Substitute \<and>
   props (rehypeAutolinkHeadings (Some opts))
     = (case opt_properties opts of
          None \<Rightarrow> Some (StaticProps [(''tabIndex'', PNum ''-1'')])
        | Some p \<Rightarrow> Some p)"
  by (simp add: rehypeAutolinkHeadings_def Let_def)

lemma configured_default:
  assumes "b \<noteq> ''after''" "b \<noteq> ''before''" "b \<noteq> ''wrap''" "b \<noteq> ''substitute''"
    and "opt_behavior opts = Some b"
  shows "method_of (rehypeAutolinkHeadings (Some opts)) = Inject"
    and "props (rehypeAutolinkHeadings (Some opts))
     = (case opt_properties opts of
          None \<Rightarrow> Some (StaticProps [(''ariaHidden'', PStr ''true''),
                                     (''tabIndex'', PNum ''-1'')])
        | Some p \<Rightarrow> Some p)"
  using assms by (simp_all add: rehypeAutolinkHeadings_def Let_def)

lemma configured_around:
  "opt_behavior opts = Some b \<Longrightarrow> b = ''before'' \<or> b = ''after'' \<Longrightarrow>
   method_of (rehypeAutolinkHeadings (Some opts)) = Around \<and>
   props (rehypeAutolinkHeadings (Some opts)) = opt_properties opts \<and>
   behavior (rehypeAutolinkHeadings (Some opts)) = b"
  by (auto simp add: rehypeAutolinkHeadings_def Let_def)

lemma configured_wrap:
  "opt_behavior opts = Some ''wrap'' \<Longrightarrow>
   method_of (rehypeAutolinkHeadings (Some opts)) = Wrap \<and>
   props (rehypeAutolinkHeadings (Some opts)) = opt_properties opts"
  by (simp add: rehypeAutolinkHeadings_def Let_def)

lemma rehype_wrap_content:
  "opt_behavior opts = Some ''wrap'' \<Longrightarrow>
   rehypeAutolinkHeadings (Some (opts\<lparr>opt_content := t\<rparr>))
     = (rehypeAutolinkHeadings (Some opts))
         \<lparr>content := (case t of None \<Rightarrow> Static (One contentDefaults) | Some x \<Rightarrow> x)\<rparr>"
  by (simp add: rehypeAutolinkHeadings_def Let_def)

lemma visitor_wrap_content:
  "method_of c = Wrap \<Longrightarrow> visitor (c\<lparr>content := t\<rparr>) = visitor c"
  by (intro ext) (simp add: visitor_def wrap_def)

section \<open>Inert subtrees\<close>

lemma not_candidate_not_qualifies:
  "\<not> candidate node \<Longrightarrow> \<not> qualifies c node index parent"
  by (auto simp add: candidate_def qualifies_def)

lemma inert_not_candidate: "inert node \<Longrightarrow> \<not> candidate node"
  by (cases node) (simp_all add: candidate_def)

lemma inert_rewrite_aux:
  "inert node \<longrightarrow> rewrite c node = node"
  "list_all inert todo \<longrightarrow> rewrite_list c parent seen todo = seen @ todo"
proof (induction c node and c parent seen todo rule: rewrite_rewrite_list.induct)
  case (5 c parent seen n rest)
  show ?case
  proof
    assume a: "list_all inert (n # rest)"
    then have "\<not> qualifies c n (Some (length seen)) (Some (set_children parent (seen @ n # rest)))"
      by (simp add: inert_not_candidate not_candidate_not_qualifies)
    with 5(2,3) a show "rewrite_list c parent seen (n # rest) = seen @ n # rest"
      by simp
  qed
qed simp_all

lemma inert_rewrite_list:
  "list_all inert todo \<Longrightarrow> rewrite_list c parent seen todo = seen @ todo"
  using inert_rewrite_aux(2) by blast

section \<open>Facts about the store\<close>

lemma within_simps [simp]:
  "within lo hi []"
  "within lo hi (r # rs) = (lo \<le> r \<and> r < hi \<and> within lo hi rs)"
  "within lo hi (rs @ rs') = (within lo hi rs \<and> within lo hi rs')"
  by (auto simp add: within_def)


lemma within_disjoint:
  "within lo hi rs \<Longrightarrow> within lo' hi' rs' \<Longrightarrow> hi \<le> lo' \<Longrightarrow> set rs \<inter> set rs' = {}"
  by (fastforce simp add: within_def list_all_iff)





















































section \<open>The link's reference\<close>

text \<open>
  Claim C1. For any configuration, the link built for a heading, with the content
  template's children or, for \<open>wrap\<close>, with the heading's own, has \<open>href\<close> equal to
  \<open>'#'\<close> followed by the \<open>id\<close> of that very heading, whatever the configured
  properties template (a default, a static object or a generator) says about \<open>href\<close>.
  It is this link that is placed: the visitor calls the strategy with the heading it
  visits; \<open>inject\<close> puts the link first or last among the heading's children,
  \<open>wrap\<close> and \<open>substitute\<close> make it the only child, \<open>around\<close> splices it in next to
  the heading or inside the grouping element; and the transform replaces every
  qualifying heading it comes to by that result.
\<close>

theorem processed_heading_link_href:
  assumes "c = rehypeAutolinkHeadings opts"
    and "link = create heading (toProperties (props c) heading) (toChildren (content c) heading)"
    and "wrapping = create heading (toProperties (props c) heading) (children_of heading)"
    and "weight tree \<le> fuel"
  shows "property (properties_of link) ''href''
           = PStr (''#'' @ toString (property (properties_of heading) ''id''))
    \<and> property (properties_of wrapping) ''href''
           = PStr (''#'' @ toString (property (properties_of heading) ''id''))
    \<and> (qualifies c heading index parent \<longrightarrow>
          visitor c heading index parent = call (method_of c) c heading index parent)
    \<and> inject c heading
        = Skip (Node (set_children heading
                       (if behavior c = ''prepend'' then link # children_of heading
                        else children_of heading @ [link])))
               None
    \<and> wrap c heading = Skip (Node (set_children heading [wrapping])) None
    \<and> substitute c heading = Skip (Node (set_children heading [link])) None
    \<and> around c heading (Some i) (Some p)
        = Skip (Siblings (splice i 1 (spliced c heading) (children_of p)))
               (Some (i + length (spliced c heading)))
    \<and> pair c heading = (if behavior c = ''before'' then [link, heading] else [heading, link])
    \<and> (spliced c heading = pair c heading
         \<or> (\<exists>name ps. spliced c heading = [Element name ps (pair c heading)]))
    \<and> replacement c heading
        = (case method_of c of
             Inject \<Rightarrow>
               [set_children heading
                  (if behavior c = ''prepend'' then link # children_of heading
                   else children_of heading @ [link])]
           | Wrap \<Rightarrow> [set_children heading [wrapping]]
           | Substitute \<Rightarrow> [set_children heading [link]]
           | Around \<Rightarrow> spliced c heading)
    \<and> (qualifies c heading (Some (length seen))
           (Some (set_children parent_node (seen @ heading # rest))) \<longrightarrow>
          rewrite_list c parent_node seen (heading # rest)
            = rewrite_list c parent_node (seen @ replacement c heading) rest)
    \<and> transform fuel opts tree = Some (expected c tree)"
proof -
  have h: "\<And>kids. property (properties_of (create heading (toProperties (props c) heading) kids))
              ''href''
            = PStr (''#'' @ toString (property (properties_of heading) ''id''))"
    by (simp add: create_def property_def AList.update_conv')
  have s: "spliced c heading = pair c heading
         \<or> (\<exists>name ps. spliced c heading = [Element name ps (pair c heading)])"
    by (auto simp add: spliced_def split: option.splits fragment.splits node.splits)
  have t: "transform fuel opts tree = Some (expected c tree)"
    using visit_expected [OF assms(4)] assms(1) by (simp add: transform_def)
  show ?thesis
    unfolding assms(2) assms(3)
    using h s t
    by (simp add: visitor_qualifies around_spliced inject_def wrap_def substitute_def
          pair_def replacement_def Let_def del: around.simps split: strategy.splits)
qed

theorem processed_heading_link_href_witness:
  "weight (Root [intro_heading]) \<le> 7
   \<and> qualifies
        (rehypeAutolinkHeadings (Some (emptyOptions\<lparr>opt_properties :=
           Some (BuildProperties (\<lambda>heading. [(''href'', PStr ''/elsewhere''),
                                               (''title'', PStr ''t'')]))\<rparr>)))
        intro_heading (Some 0) (Some (Root [intro_heading]))
   \<and> transform 7
        (Some (emptyOptions\<lparr>opt_properties :=
           Some (BuildProperties (\<lambda>heading. [(''href'', PStr ''/elsewhere''),
                                               (''title'', PStr ''t'')]))\<rparr>))
        (Root [intro_heading])
      = Some (Root [Element ''h2'' [(''id'', PStr ''intro'')]
                      [Element ''a'' [(''href'', PStr ''#intro''), (''title'', PStr ''t'')]
                         [contentDefaults],
                       Text ''Intro'']])"
proof -
  let ?opts = "Some (emptyOptions\<lparr>opt_properties :=
           Some (BuildProperties (\<lambda>heading. [(''href'', PStr ''/elsewhere''),
                                               (''title'', PStr ''t'')]))\<rparr>)"
  let ?c = "rehypeAutolinkHeadings ?opts"
  have w: "weight (Root [intro_heading]) \<le> 7" by (simp add: intro_heading_def)
  have q: "qualifies ?c intro_heading (Some 0) (Some (Root [intro_heading]))"
    by (simp add: qualifies_def configured convertElement_def emptyOptions_def property_def
          intro_heading_def)
  have m: "method_of ?c = Inject" "behavior ?c = ''prepend''"
    by (simp_all add: rehypeAutolinkHeadings_def emptyOptions_def Let_def)
  have r: "replacement ?c intro_heading
             = [Element ''h2'' [(''id'', PStr ''intro'')]
                  [Element ''a'' [(''href'', PStr ''#intro''), (''title'', PStr ''t'')]
                     [contentDefaults],
                   Text ''Intro'']]"
    unfolding replacement_def m
    by (simp add: rehypeAutolinkHeadings_def emptyOptions_def Let_def toChildren_def clone_def
          create_def property_def intro_heading_def)
  have e: "expected ?c (Root [intro_heading])
             = Root [Element ''h2'' [(''id'', PStr ''intro'')]
                      [Element ''a'' [(''href'', PStr ''#intro''), (''title'', PStr ''t'')]
                         [contentDefaults],
                       Text ''Intro'']]"
    using q by (simp add: expected_def qualifies_def r)
  from processed_heading_link_href
         [where opts = ?opts and heading = intro_heading and fuel = 7
            and tree = "Root [intro_heading]", OF refl refl refl w]
  have "transform 7 ?opts (Root [intro_heading]) = Some (expected ?c (Root [intro_heading]))"
    by blast
  with w q show ?thesis unfolding e by simp
qed

section \<open>Substitute\<close>

text \<open>
  Claim C2, as stated, fails: with \<open>'substitute'\<close> the link does not wrap the
  heading's original children. For \<open><h2 id="intro">Intro</h2>\<close> and no other
  option, the link holds the default icon and the text \<open>Intro\<close> is gone.
\<close>

theorem substitute_counterexample:
  "transform 5 (Some (emptyOptions\<lparr>opt_behavior := Some ''substitute''\<rparr>))
     (Root [Element ''h2'' [(''id'', PStr ''intro'')] [Text ''Intro'']])
   = Some (Root [Element ''h2'' [(''id'', PStr ''intro'')]
       [Element ''a'' [(''tabIndex'', PNum ''-1''), (''href'', PStr ''#intro'')]
          [Element ''span'' [(''className'', PArr [PStr ''icon'', PStr ''icon-link''])] []]]])
   \<and> transform 5 (Some (emptyOptions\<lparr>opt_behavior := Some ''substitute''\<rparr>))
     (Root [Element ''h2'' [(''id'', PStr ''intro'')] [Text ''Intro'']])
   \<noteq> Some (Root [Element ''h2'' [(''id'', PStr ''intro'')]
       [Element ''a'' [(''tabIndex'', PNum ''-1''), (''href'', PStr ''#intro'')]
          [Text ''Intro'']]])"
  by code_simp

text \<open>
  Claim C2, amended. With behavior \<open>'substitute'\<close> the heading's children are
  replaced by a single link, as with \<open>'wrap'\<close>, but the link's children are the
  materialized content template (the configured one, or the default icon), not the
  heading's original children, which are dropped; the link's extra properties are
  the configured ones, or \<open>{tabIndex: -1}\<close> when none are supplied.
\<close>

theorem substitute_link_holds_content:
  assumes "opt_behavior opts = Some ''substitute''"
    and "c = rehypeAutolinkHeadings (Some opts)"
  shows "method_of c = Substitute
    \<and> call (method_of c) c heading index parent
        = Skip (Node (set_children heading
                 [create heading
                    (case opt_properties opts of
                       None \<Rightarrow> [(''tabIndex'', PNum ''-1'')]
                     | Some p \<Rightarrow> toProperties (Some p) heading)
                    (toChildren (case opt_content opts of
                                   None \<Rightarrow> Static (One contentDefaults)
                                 | Some t \<Rightarrow> t) heading)]))
               None"
  using assms
  by (simp add: configured_substitute configured substitute_def clone_def split: option.splits)

theorem substitute_link_holds_content_witness:
  "opt_behavior (emptyOptions\<lparr>opt_behavior := Some ''substitute''\<rparr>) = Some ''substitute''
   \<and> substitute (rehypeAutolinkHeadings (Some (emptyOptions\<lparr>opt_behavior := Some ''substitute''\<rparr>)))
        (Element ''h2'' [(''id'', PStr ''intro'')] [Text ''Intro''])
      = Skip (Node (Element ''h2'' [(''id'', PStr ''intro'')]
           [Element ''a'' [(''tabIndex'', PNum ''-1''), (''href'', PStr ''#intro'')]
              [Element ''span'' [(''className'', PArr [PStr ''icon'', PStr ''icon-link''])] []]]))
          None"
proof -
  have a: "opt_behavior (emptyOptions\<lparr>opt_behavior := Some ''substitute''\<rparr>)
             = Some ''substitute''"
    by simp
  show ?thesis
    using a substitute_link_holds_content [OF a refl,
      of "Element ''h2'' [(''id'', PStr ''intro'')] [Text ''Intro'']" "Some 0"
         "Some (Root [Element ''h2'' [(''id'', PStr ''intro'')] [Text ''Intro'']])"]
    by (auto simp add: emptyOptions_def toChildren_def clone_def contentDefaults_def
          create_def property_def)
qed

section \<open>Behaviors outside the six names\<close>

text \<open>
  Claim C3, as stated, fails: an unrecognized behavior is not treated as
  \<open>'prepend'\<close>. With \<open>behavior: 'inline'\<close> the link of \<open><h2 id="intro">Intro</h2>\<close>
  comes after the text, and the result differs from that of \<open>'prepend'\<close>.
\<close>

theorem unknown_behavior_counterexample:
  "transform 5 (Some (emptyOptions\<lparr>opt_behavior := Some ''inline''\<rparr>))
     (Root [Element ''h2'' [(''id'', PStr ''intro'')] [Text ''Intro'']])
   = Some (Root [Element ''h2'' [(''id'', PStr ''intro'')]
       [Text ''Intro'',
        Element ''a'' [(''ariaHidden'', PStr ''true''), (''tabIndex'', PNum ''-1''),
                       (''href'', PStr ''#intro'')]
          [Element ''span'' [(''className'', PArr [PStr ''icon'', PStr ''icon-link''])] []]]])
   \<and> transform 5 (Some (emptyOptions\<lparr>opt_behavior := Some ''inline''\<rparr>))
        (Root [Element ''h2'' [(''id'', PStr ''intro'')] [Text ''Intro'']])
     \<noteq> transform 5 (Some (emptyOptions\<lparr>opt_behavior := Some ''prepend''\<rparr>))
        (Root [Element ''h2'' [(''id'', PStr ''intro'')] [Text ''Intro'']])"
  by code_simp

text \<open>
  Claim C3, amended. For every behavior string other than the six named values,
  configuration does not fail: the transform uses the \<open>inject\<close> strategy, with the
  default properties of \<open>'append'\<close> and \<open>'prepend'\<close> when none are supplied, and
  inserts the link as the last child of each matched heading, as \<open>'append'\<close> does;
  only the empty string, which counts as no behavior, gives \<open>'prepend'\<close> (the link
  as first child).
\<close>

theorem unknown_behavior_injects_last:
  assumes "b \<notin> {''after'', ''append'', ''before'', ''prepend'', ''wrap'', ''substitute''}"
    and "opt_behavior opts = Some b"
    and "c = rehypeAutolinkHeadings (Some opts)"
  shows "method_of c = Inject
    \<and> props c
        = (case opt_properties opts of
             None \<Rightarrow> Some (StaticProps [(''ariaHidden'', PStr ''true''),
                                        (''tabIndex'', PNum ''-1'')])
           | Some p \<Rightarrow> Some p)
    \<and> call (method_of c) c heading index parent
        = Skip (Node (set_children heading
                       (if b = []
                        then create heading (toProperties (props c) heading)
                               (toChildren (content c) heading) # children_of heading
                        else children_of heading
                               @ [create heading (toProperties (props c) heading)
                                    (toChildren (content c) heading)])))
               None"
proof -
  from assms(1) have ne: "b \<noteq> ''after''" "b \<noteq> ''before''" "b \<noteq> ''wrap''" "b \<noteq> ''substitute''"
    and np: "b \<noteq> ''prepend''"
    by simp_all
  show ?thesis
    using configured_default [OF ne assms(2)] np assms(2) assms(3)
    by (simp add: inject_def configured Let_def)
qed

theorem unknown_behavior_injects_last_witness:
  "''inline'' \<notin> {''after'', ''append'', ''before'', ''prepend'', ''wrap'', ''substitute''}
   \<and> opt_behavior (emptyOptions\<lparr>opt_behavior := Some ''inline''\<rparr>) = Some ''inline''
   \<and> method_of (rehypeAutolinkHeadings (Some (emptyOptions\<lparr>opt_behavior := Some ''inline''\<rparr>)))
       = Inject
   \<and> inject (rehypeAutolinkHeadings (Some (emptyOptions\<lparr>opt_behavior := Some ''inline''\<rparr>)))
        (Element ''h2'' [(''id'', PStr ''intro'')] [Text ''Intro''])
      = Skip (Node (Element ''h2'' [(''id'', PStr ''intro'')]
           [Text ''Intro'',
            Element ''a'' [(''ariaHidden'', PStr ''true''), (''tabIndex'', PNum ''-1''),
                           (''href'', PStr ''#intro'')]
              [Element ''span'' [(''className'', PArr [PStr ''icon'', PStr ''icon-link''])] []]]))
          None"
proof -
  have a: "''inline'' \<notin> {''after'', ''append'', ''before'', ''prepend'', ''wrap'', ''substitute''}"
    by simp
  have b: "opt_behavior (emptyOptions\<lparr>opt_behavior := Some ''inline''\<rparr>) = Some ''inline''"
    by simp
  show ?thesis
    using a b unknown_behavior_injects_last [OF a b refl,
      of "Element ''h2'' [(''id'', PStr ''intro'')] [Text ''Intro'']" "Some 0"
         "Some (Root [Element ''h2'' [(''id'', PStr ''intro'')] [Text ''Intro'']])"]
    by (auto simp add: configured emptyOptions_def toChildren_def clone_def contentDefaults_def
          create_def property_def)
qed

section \<open>Default properties\<close>

text \<open>
  Claim C4. With no properties template the defaults are as the claim lists them,
  but for one value: for \<open>'prepend'\<close> (also when no behavior is given) and
  \<open>'append'\<close> the default holds \<open>ariaHidden\<close> as the string \<open>'true'\<close>, where the
  claim and the documentation of \<open>Options.properties\<close> say the boolean \<open>true\<close>.
  \<open>'substitute'\<close> defaults to \<open>{tabIndex: -1}\<close>; \<open>'before'\<close>, \<open>'after'\<close> and
  \<open>'wrap'\<close> have none.
\<close>

theorem default_properties_by_behavior:
  "props (rehypeAutolinkHeadings None)
     = Some (StaticProps [(''ariaHidden'', PStr ''true''), (''tabIndex'', PNum ''-1'')])
   \<and> props (rehypeAutolinkHeadings (Some (emptyOptions\<lparr>opt_behavior := Some ''prepend''\<rparr>)))
     = Some (StaticProps [(''ariaHidden'', PStr ''true''), (''tabIndex'', PNum ''-1'')])
   \<and> props (rehypeAutolinkHeadings (Some (emptyOptions\<lparr>opt_behavior := Some ''append''\<rparr>)))
     = Some (StaticProps [(''ariaHidden'', PStr ''true''), (''tabIndex'', PNum ''-1'')])
   \<and> props (rehypeAutolinkHeadings (Some (emptyOptions\<lparr>opt_behavior := Some ''substitute''\<rparr>)))
     = Some (StaticProps [(''tabIndex'', PNum ''-1'')])
   \<and> props (rehypeAutolinkHeadings (Some (emptyOptions\<lparr>opt_behavior := Some ''before''\<rparr>)))
     = None
   \<and> props (rehypeAutolinkHeadings (Some (emptyOptions\<lparr>opt_behavior := Some ''after''\<rparr>)))
     = None
   \<and> props (rehypeAutolinkHeadings (Some (emptyOptions\<lparr>opt_behavior := Some ''wrap''\<rparr>)))
     = None
   \<and> PStr ''true'' \<noteq> PBool True"
  by (simp add: rehypeAutolinkHeadings_def emptyOptions_def Let_def)

section \<open>Headings without an identifier\<close>

text \<open>
  Claim C5, as stated, fails: the subtree of a heading without \<open>id\<close> does not stay
  unchanged when a heading with an \<open>id\<close> is nested in it. The visitor lets the outer
  heading pass, the traversal descends, and the inner heading gets its link.
\<close>

theorem heading_without_id_counterexample:
  "headingRank (Element ''h1'' [] [Element ''h2'' [(''id'', PStr ''intro'')] [Text ''Intro'']])
     = Some 1
   \<and> \<not> truthy (property (properties_of
          (Element ''h1'' [] [Element ''h2'' [(''id'', PStr ''intro'')] [Text ''Intro'']])) ''id'')
   \<and> transform 9 None
        (Root [Element ''h1'' [] [Element ''h2'' [(''id'', PStr ''intro'')] [Text ''Intro'']]])
     = Some (Root [Element ''h1'' []
         [Element ''h2'' [(''id'', PStr ''intro'')]
            [Element ''a'' [(''ariaHidden'', PStr ''true''), (''tabIndex'', PNum ''-1''),
                            (''href'', PStr ''#intro'')]
               [Element ''span'' [(''className'', PArr [PStr ''icon'', PStr ''icon-link''])] []],
             Text ''Intro'']]])
   \<and> transform 9 None
        (Root [Element ''h1'' [] [Element ''h2'' [(''id'', PStr ''intro'')] [Text ''Intro'']]])
     \<noteq> Some (Root [Element ''h1'' []
                     [Element ''h2'' [(''id'', PStr ''intro'')] [Text ''Intro'']]])"
  by code_simp

text \<open>
  Claim C5, amended. For every heading element whose property map lacks a non-empty
  (truthy) identifier, and whatever the configured behavior, the visitor applies no
  strategy: the heading keeps its tag name and its properties and gets no link, and
  the traversal goes on into its children as into those of any other element. Its
  subtree is left unchanged when no heading with a non-empty identifier lies in it;
  such a heading nested in it is processed as anywhere else.
\<close>

theorem heading_without_id_is_passed_over:
  assumes "\<not> truthy (property ps ''id'')" and "weight (Element name ps cs) \<le> fuel"
  shows "visitor c (Element name ps cs) index parent = Pass
    \<and> visit_node fuel (visitor c) (Element name ps cs) index parent
        = Some (Node (Element name ps (rewrite_list c (Element name ps cs) [] cs)), None)
    \<and> (list_all inert cs \<longrightarrow>
         visit_node fuel (visitor c) (Element name ps cs) index parent
           = Some (Node (Element name ps cs), None))"
proof -
  have v: "visitor c (Element name ps cs) index parent = Pass"
    using assms(1) by (simp add: visitor_def)
  then have "(if element_type (Element name ps cs)
              then visitor c (Element name ps cs) index parent else Pass) = Pass"
    by simp
  from visit_node_pass [OF assms(2) this]
  have w: "visit_node fuel (visitor c) (Element name ps cs) index parent
        = Some (Node (Element name ps (rewrite_list c (Element name ps cs) [] cs)), None)"
    by simp
  show ?thesis
    using v w by (simp add: inert_rewrite_list)
qed

theorem heading_without_id_is_passed_over_witness:
  "\<not> truthy (property [(''className'', PArr [PStr ''title''])] ''id'')
   \<and> weight (Element ''h1'' [(''className'', PArr [PStr ''title''])]
               [Text ''Guide'', Element ''em'' [] [Text ''draft'']]) \<le> 9
   \<and> list_all inert [Text ''Guide'', Element ''em'' [] [Text ''draft'']]
   \<and> visitor (rehypeAutolinkHeadings (Some (emptyOptions\<lparr>opt_behavior := Some ''wrap''\<rparr>)))
        (Element ''h1'' [(''className'', PArr [PStr ''title''])]
           [Text ''Guide'', Element ''em'' [] [Text ''draft'']])
        (Some 0) (Some (Root [])) = Pass
   \<and> visit_node 9
        (visitor (rehypeAutolinkHeadings (Some (emptyOptions\<lparr>opt_behavior := Some ''wrap''\<rparr>))))
        (Element ''h1'' [(''className'', PArr [PStr ''title''])]
           [Text ''Guide'', Element ''em'' [] [Text ''draft'']])
        (Some 0) (Some (Root []))
      = Some (Node (Element ''h1'' [(''className'', PArr [PStr ''title''])]
                      [Text ''Guide'', Element ''em'' [] [Text ''draft'']]), None)"
proof -
  have a: "\<not> truthy (property [(''className'', PArr [PStr ''title''])] ''id'')"
    by (simp add: property_def)
  have b: "weight (Element ''h1'' [(''className'', PArr [PStr ''title''])]
               [Text ''Guide'', Element ''em'' [] [Text ''draft'']]) \<le> 9"
    by simp
  have i: "list_all inert [Text ''Guide'', Element ''em'' [] [Text ''draft'']]"
    by (simp add: candidate_def)
  show ?thesis
    using a b i heading_without_id_is_passed_over [OF a b,
      of "rehypeAutolinkHeadings (Some (emptyOptions\<lparr>opt_behavior := Some ''wrap''\<rparr>))"
         "Some 0" "Some (Root [])"]
    by blast
qed

section \<open>Copies of static templates\<close>




section \<open>Grouping\<close>

text \<open>
  Claim C7. With behavior \<open>'before'\<close> or \<open>'after'\<close> and a grouping template, the
  heading and the link are put into the grouping node exactly when \<open>toNode\<close> gives
  one element node for the template: that element, with the pair as its children,
  is the one node spliced in, and the traversal resumes one past it. For any other
  result (a node that is no element, an array, or nothing) the pair is spliced in
  ungrouped, and the traversal resumes two past the index.
\<close>

theorem around_groups_single_element_only:
  assumes "opt_behavior opts = Some b" and "b = ''before'' \<or> b = ''after''"
    and "opt_group opts = Some g"
    and "c = rehypeAutolinkHeadings (Some opts)"
  shows "call (method_of c) c heading (Some index) (Some parent)
     = (case toNode g heading of
          One (Element name ps old) \<Rightarrow>
            Skip (Siblings (splice index 1 [Element name ps (pair c heading)] (children_of parent)))
                 (Some (index + 1))
        | _ \<Rightarrow>
            Skip (Siblings (splice index 1 (pair c heading) (children_of parent)))
                 (Some (index + 2)))"
  using assms configured_around [OF assms(1,2)]
  by (auto simp add: configured pair_def Let_def split: fragment.splits node.splits)

theorem around_groups_single_element_only_witness:
  "around (rehypeAutolinkHeadings (Some (emptyOptions\<lparr>opt_behavior := Some ''after'',
              opt_group := Some (Static (One (Element ''div'' [] [Text ''old''])))\<rparr>)))
      intro_heading (Some 0) (Some (Root [intro_heading, Text ''x'']))
    = Skip (Siblings [Element ''div'' []
                        [intro_heading,
                         Element ''a'' [(''href'', PStr ''#intro'')] [contentDefaults]],
                      Text ''x''])
           (Some 1)
   \<and> around (rehypeAutolinkHeadings (Some (emptyOptions\<lparr>opt_behavior := Some ''after'',
              opt_group := Some (Static (Many [Element ''div'' [] []]))\<rparr>)))
      intro_heading (Some 0) (Some (Root [intro_heading, Text ''x'']))
    = Skip (Siblings [intro_heading,
                      Element ''a'' [(''href'', PStr ''#intro'')] [contentDefaults],
                      Text ''x''])
           (Some 2)
   \<and> around (rehypeAutolinkHeadings (Some (emptyOptions\<lparr>opt_behavior := Some ''after'',
              opt_group := Some (Static (One (Text ''div'')))\<rparr>)))
      intro_heading (Some 0) (Some (Root [intro_heading, Text ''x'']))
    = Skip (Siblings [intro_heading,
                      Element ''a'' [(''href'', PStr ''#intro'')] [contentDefaults],
                      Text ''x''])
           (Some 2)
   \<and> around (rehypeAutolinkHeadings (Some (emptyOptions\<lparr>opt_behavior := Some ''after'',
              opt_group := Some (Build (\<lambda>heading. One Absent))\<rparr>)))
      intro_heading (Some 0) (Some (Root [intro_heading, Text ''x'']))
    = Skip (Siblings [intro_heading,
                      Element ''a'' [(''href'', PStr ''#intro'')] [contentDefaults],
                      Text ''x''])
           (Some 2)"
proof -
  have m: "\<And>g. method_of (rehypeAutolinkHeadings
              (Some (emptyOptions\<lparr>opt_behavior := Some ''after'', opt_group := Some g\<rparr>))) = Around"
    by (simp add: rehypeAutolinkHeadings_def Let_def)
  have p: "\<And>g. pair (rehypeAutolinkHeadings
                (Some (emptyOptions\<lparr>opt_behavior := Some ''after'', opt_group := Some g\<rparr>)))
           intro_heading
         = [intro_heading, Element ''a'' [(''href'', PStr ''#intro'')] [contentDefaults]]"
    by (simp add: pair_def configured rehypeAutolinkHeadings_def emptyOptions_def Let_def
        toChildren_def clone_def create_def property_def intro_heading_def)
  have t: "\<And>g. call (method_of (rehypeAutolinkHeadings
              (Some (emptyOptions\<lparr>opt_behavior := Some ''after'', opt_group := Some g\<rparr>))))
            (rehypeAutolinkHeadings
              (Some (emptyOptions\<lparr>opt_behavior := Some ''after'', opt_group := Some g\<rparr>)))
            intro_heading (Some 0) (Some (Root [intro_heading, Text ''x'']))
        = (case toNode g intro_heading of
             One (Element name ps old) \<Rightarrow>
               Skip (Siblings [Element name ps
                      [intro_heading, Element ''a'' [(''href'', PStr ''#intro'')] [contentDefaults]],
                    Text ''x'']) (Some 1)
           | _ \<Rightarrow>
               Skip (Siblings [intro_heading,
                      Element ''a'' [(''href'', PStr ''#intro'')] [contentDefaults], Text ''x''])
                    (Some 2))"
    using around_groups_single_element_only [OF _ _ _ refl, of _ "''after''" _ intro_heading 0
            "Root [intro_heading, Text ''x'']"]
    by (simp add: p splice_def split: fragment.splits node.splits)
  show ?thesis
    using t [of "Static (One (Element ''div'' [] [Text ''old'']))"]
          t [of "Static (Many [Element ''div'' [] []])"]
          t [of "Static (One (Text ''div''))"]
          t [of "Build (\<lambda>heading. One Absent)"]
    by (simp add: m clone_def del: around.simps)
qed

section \<open>A heading without a parent\<close>

lemma visitor_around_root:
  "method_of c = Around \<Longrightarrow>
   (if element_type tree then visitor c tree None None else Pass) = Pass"
  by (simp add: visitor_def)

text \<open>
  Claim C8. With behavior \<open>'before'\<close> or \<open>'after'\<close>, a heading visited without a
  parent or without an index is let pass: the strategy changes nothing and fails
  with nothing. Such a heading is the tree itself; the traversal then goes through
  its children as usual, so every heading below it is processed as it would be
  anywhere else.
\<close>

theorem around_without_parent_is_noop:
  assumes "opt_behavior opts = Some b" and "b = ''before'' \<or> b = ''after''"
    and "c = rehypeAutolinkHeadings (Some opts)"
    and "weight (Element name ps cs) \<le> fuel"
  shows "call (method_of c) c heading None parent = Pass
    \<and> call (method_of c) c heading index None = Pass
    \<and> visit fuel (visitor c) (Element name ps cs)
        = Some (Element name ps (rewrite_list c (Element name ps cs) [] cs))"
proof -
  have m: "method_of c = Around"
    using configured_around [OF assms(1,2)] assms(3) by simp
  have a: "call (method_of c) c heading None parent = Pass" using m by simp
  have b: "call (method_of c) c heading index None = Pass"
    using m by (cases index) simp_all
  from visit_node_pass [OF assms(4) visitor_around_root [OF m]]
  have "visit fuel (visitor c) (Element name ps cs) = Some (rewrite c (Element name ps cs))"
    by (simp add: visit_def)
  with a b show ?thesis by simp
qed

theorem around_without_parent_is_noop_witness:
  "opt_behavior (emptyOptions\<lparr>opt_behavior := Some ''before''\<rparr>) = Some ''before''
   \<and> weight (Element ''h1'' [(''id'', PStr ''top'')] [Text ''Top'', intro_heading]) \<le> 9
   \<and> around (rehypeAutolinkHeadings (Some (emptyOptions\<lparr>opt_behavior := Some ''before''\<rparr>)))
        (Element ''h1'' [(''id'', PStr ''top'')] [Text ''Top'', intro_heading]) None None = Pass
   \<and> visit 9 (visitor (rehypeAutolinkHeadings (Some (emptyOptions\<lparr>opt_behavior := Some ''before''\<rparr>))))
        (Element ''h1'' [(''id'', PStr ''top'')] [Text ''Top'', intro_heading])
      = Some (Element ''h1'' [(''id'', PStr ''top'')]
                [Text ''Top'',
                 Element ''a'' [(''href'', PStr ''#intro'')] [contentDefaults],
                 intro_heading])"
proof -
  have a: "opt_behavior (emptyOptions\<lparr>opt_behavior := Some ''before''\<rparr>) = Some ''before''"
    by simp
  have b: "''before'' = ''before'' \<or> ''before'' = ''after''" by simp
  have w: "weight (Element ''h1'' [(''id'', PStr ''top'')] [Text ''Top'', intro_heading]) \<le> 9"
    by (simp add: intro_heading_def)
  have r: "rewrite_list (rehypeAutolinkHeadings (Some (emptyOptions\<lparr>opt_behavior := Some ''before''\<rparr>)))
             (Element ''h1'' [(''id'', PStr ''top'')] [Text ''Top'', intro_heading]) []
             [Text ''Top'', intro_heading]
           = [Text ''Top'', Element ''a'' [(''href'', PStr ''#intro'')] [contentDefaults],
              intro_heading]"
    by (simp add: qualifies_def replacement_def spliced_def pair_def configured
          rehypeAutolinkHeadings_def emptyOptions_def Let_def convertElement_def
          toChildren_def clone_def create_def property_def intro_heading_def)
  from around_without_parent_is_noop [OF a b refl w,
            of "Element ''h1'' [(''id'', PStr ''top'')] [Text ''Top'', intro_heading]" None None]
  have v: "visit 9 (visitor (rehypeAutolinkHeadings (Some (emptyOptions\<lparr>opt_behavior := Some ''before''\<rparr>))))
        (Element ''h1'' [(''id'', PStr ''top'')] [Text ''Top'', intro_heading])
      = Some (Element ''h1'' [(''id'', PStr ''top'')]
           (rewrite_list (rehypeAutolinkHeadings (Some (emptyOptions\<lparr>opt_behavior := Some ''before''\<rparr>)))
             (Element ''h1'' [(''id'', PStr ''top'')] [Text ''Top'', intro_heading]) []
             [Text ''Top'', intro_heading]))"
    by blast
  show ?thesis
    using a w v unfolding r by simp
qed

section \<open>Skip directives\<close>

lemma splice_parts:
  assumes "index < length cs"
  shows "take index (splice index 1 ns cs) = take index cs"
    and "take (length ns) (drop index (splice index 1 ns cs)) = ns"
    and "drop (index + length ns) (splice index 1 ns cs) = drop (Suc index) cs"
  using assms by (simp_all add: splice_def)

text \<open>
  Claim C9. Every strategy answers with a skip directive. \<open>inject\<close> (prepend and
  append), \<open>wrap\<close> and \<open>substitute\<close> answer \<open>[SKIP]\<close>: the heading's subtree, new
  link included, is not entered. \<open>around\<close> (before and after) answers
  \<open>[SKIP, index + nodes.length]\<close>: the spliced nodes stand at \<open>index\<close> and after,
  and at the reported index the array goes on with what followed the heading. In
  consequence a pass over a tree ends, within the fuel that the tree's size gives, with
  the result of the structural recursion \<open>expected\<close>, which goes through the original
  children once and takes every replacement as it is: nothing generated is visited.
\<close>

theorem strategies_skip_what_they_generate:
  assumes "weight tree \<le> fuel" and "index < length (children_of parent)"
  shows "inject c heading = Skip (Node (hd (replacement (c\<lparr>method_of := Inject\<rparr>) heading))) None
    \<and> wrap c heading = Skip (Node (hd (replacement (c\<lparr>method_of := Wrap\<rparr>) heading))) None
    \<and> substitute c heading
        = Skip (Node (hd (replacement (c\<lparr>method_of := Substitute\<rparr>) heading))) None
    \<and> around c heading (Some index) (Some parent)
        = Skip (Siblings (splice index 1 (spliced c heading) (children_of parent)))
               (Some (index + length (spliced c heading)))
    \<and> take (length (spliced c heading))
         (drop index (splice index 1 (spliced c heading) (children_of parent)))
        = spliced c heading
    \<and> drop (index + length (spliced c heading))
         (splice index 1 (spliced c heading) (children_of parent))
        = drop (Suc index) (children_of parent)
    \<and> visit fuel (visitor c) tree = Some (expected c tree)"
  using visit_expected [OF assms(1)] splice_parts [OF assms(2)]
  by (simp add: around_spliced inject_def wrap_def substitute_def replacement_def Let_def
        del: around.simps)


theorem strategies_skip_what_they_generate_witness:
  "weight (Root [intro_heading, Text ''tail'']) \<le> 9
   \<and> (0::nat) < length (children_of (Root [intro_heading, Text ''tail'']))
   \<and> around (rehypeAutolinkHeadings (Some (emptyOptions\<lparr>opt_behavior := Some ''before'',
          opt_content := Some (Static (One (Element ''h3'' [(''id'', PStr ''x'')] [])))\<rparr>)))
        intro_heading (Some 0) (Some (Root [intro_heading, Text ''tail'']))
      = Skip (Siblings [Element ''a'' [(''href'', PStr ''#intro'')]
                          [Element ''h3'' [(''id'', PStr ''x'')] []],
                        intro_heading, Text ''tail''])
             (Some 2)
   \<and> visit 9 (visitor (rehypeAutolinkHeadings (Some (emptyOptions\<lparr>opt_behavior := Some ''before'',
          opt_content := Some (Static (One (Element ''h3'' [(''id'', PStr ''x'')] [])))\<rparr>))))
        (Root [intro_heading, Text ''tail''])
      = Some (Root [Element ''a'' [(''href'', PStr ''#intro'')]
                      [Element ''h3'' [(''id'', PStr ''x'')] []],
                    intro_heading, Text ''tail''])"
proof -
  let ?c = "rehypeAutolinkHeadings (Some (emptyOptions\<lparr>opt_behavior := Some ''before'',
          opt_content := Some (Static (One (Element ''h3'' [(''id'', PStr ''x'')] [])))\<rparr>))"
  let ?tree = "Root [intro_heading, Text ''tail'']"
  have w: "weight ?tree \<le> 9" by (simp add: intro_heading_def)
  have i: "(0::nat) < length (children_of ?tree)" by simp
  have s: "spliced ?c intro_heading
             = [Element ''a'' [(''href'', PStr ''#intro'')] [Element ''h3'' [(''id'', PStr ''x'')] []],
                intro_heading]"
    by (simp add: spliced_def pair_def configured rehypeAutolinkHeadings_def emptyOptions_def
          Let_def toChildren_def clone_def create_def property_def intro_heading_def)
  have m: "method_of ?c = Around" by (simp add: rehypeAutolinkHeadings_def Let_def)
  have q: "qualifies ?c intro_heading (Some 0) (Some (Root [intro_heading, Text ''tail'']))"
    by (simp add: qualifies_def configured convertElement_def emptyOptions_def property_def
          intro_heading_def)
  have e: "expected ?c ?tree
             = Root [Element ''a'' [(''href'', PStr ''#intro'')] [Element ''h3'' [(''id'', PStr ''x'')] []],
                     intro_heading, Text ''tail'']"
    using q by (simp add: expected_def qualifies_def replacement_def m s)
  from strategies_skip_what_they_generate [OF w i, of ?c intro_heading]
  have a: "around ?c intro_heading (Some 0) (Some ?tree)
        = Skip (Siblings (splice 0 1 (spliced ?c intro_heading) (children_of ?tree)))
               (Some (0 + length (spliced ?c intro_heading)))"
    and v: "visit 9 (visitor ?c) ?tree = Some (expected ?c ?tree)"
    by blast+
  show ?thesis
    using w i a v unfolding s e by (simp add: splice_def)
qed

section \<open>Wrap and the content template\<close>

text \<open>
  Claim C10. With behavior \<open>'wrap'\<close> the content template plays no part: the new
  link's children are the heading's own children, and replacing the configured
  content template by any other (or by none) changes neither the visitor nor the
  result of the transform.
\<close>

theorem wrap_never_uses_content:
  assumes "opt_behavior opts = Some ''wrap''"
    and "c = rehypeAutolinkHeadings (Some opts)"
  shows "call (method_of c) c heading index parent
      = Skip (Node (set_children heading
                     [Element ''a''
                        (AList.update ''href''
                           (PStr (''#'' @ toString (property (properties_of heading) ''id'')))
                           (toProperties (opt_properties opts) heading))
                        (children_of heading)]))
             None
    \<and> visitor (rehypeAutolinkHeadings (Some (opts\<lparr>opt_content := t\<rparr>))) = visitor c
    \<and> transform fuel (Some (opts\<lparr>opt_content := t\<rparr>)) tree = transform fuel (Some opts) tree"
proof -
  have m: "method_of c = Wrap" and p: "props c = opt_properties opts"
    using configured_wrap [OF assms(1)] assms(2) by simp_all
  have v: "visitor (rehypeAutolinkHeadings (Some (opts\<lparr>opt_content := t\<rparr>))) = visitor c"
    using assms m by (simp add: rehype_wrap_content visitor_wrap_content)
  then have "transform fuel (Some (opts\<lparr>opt_content := t\<rparr>)) tree = transform fuel (Some opts) tree"
    using assms(2) by (simp add: transform_def)
  with v m p show ?thesis by (simp add: wrap_def create_def)
qed

theorem wrap_never_uses_content_witness:
  "opt_behavior (emptyOptions\<lparr>opt_behavior := Some ''wrap''\<rparr>) = Some ''wrap''
   \<and> wrap (rehypeAutolinkHeadings (Some (emptyOptions\<lparr>opt_behavior := Some ''wrap''\<rparr>)))
        intro_heading
      = Skip (Node (Element ''h2'' [(''id'', PStr ''intro'')]
                      [Element ''a'' [(''href'', PStr ''#intro'')] [Text ''Intro'']]))
             None
   \<and> transform 5
        (Some (emptyOptions\<lparr>opt_behavior := Some ''wrap'',
                 opt_content := Some (Static (One (Text ''#'')))\<rparr>))
        (Root [intro_heading])
      = transform 5 (Some (emptyOptions\<lparr>opt_behavior := Some ''wrap''\<rparr>)) (Root [intro_heading])"
proof -
  have a: "opt_behavior (emptyOptions\<lparr>opt_behavior := Some ''wrap''\<rparr>) = Some ''wrap''"
    by simp
  have m: "method_of (rehypeAutolinkHeadings (Some (emptyOptions\<lparr>opt_behavior := Some ''wrap''\<rparr>)))
             = Wrap"
    by (simp add: rehypeAutolinkHeadings_def Let_def)
  from wrap_never_uses_content [OF a refl, of intro_heading "Some 0" "Some (Root [intro_heading])"
         "Some (Static (One (Text ''#'')))" 5 "Root [intro_heading]"]
  have w: "call (method_of (rehypeAutolinkHeadings (Some (emptyOptions\<lparr>opt_behavior := Some ''wrap''\<rparr>))))
             (rehypeAutolinkHeadings (Some (emptyOptions\<lparr>opt_behavior := Some ''wrap''\<rparr>)))
             intro_heading (Some 0) (Some (Root [intro_heading]))
      = Skip (Node (set_children intro_heading
                     [Element ''a''
                        (AList.update ''href''
                           (PStr (''#'' @ toString (property (properties_of intro_heading) ''id'')))
                           (toProperties (opt_properties (emptyOptions\<lparr>opt_behavior := Some ''wrap''\<rparr>))
                              intro_heading))
                        (children_of intro_heading)]))
             None"
    and t: "transform 5
        (Some (emptyOptions\<lparr>opt_behavior := Some ''wrap'',
                 opt_content := Some (Static (One (Text ''#'')))\<rparr>))
        (Root [intro_heading])
      = transform 5 (Some (emptyOptions\<lparr>opt_behavior := Some ''wrap''\<rparr>)) (Root [intro_heading])"
    by simp_all
  from w have "wrap (rehypeAutolinkHeadings (Some (emptyOptions\<lparr>opt_behavior := Some ''wrap''\<rparr>)))
        intro_heading
      = Skip (Node (Element ''h2'' [(''id'', PStr ''intro'')]
                      [Element ''a'' [(''href'', PStr ''#intro'')] [Text ''Intro'']]))
             None"
    unfolding m by (simp add: intro_heading_def emptyOptions_def property_def)
  with a t show ?thesis by simp
qed

end
